theory Spec2Isabelle
  imports Complex_Main
begin

section \<open>The SNOwGLoBES usage notebook\<close>

text \<open>
  The repository is one notebook, \<^verbatim>\<open>doc/nb/SNOwGLoBES_usage.ipynb\<close>. Its code cells
  set parameters and build the time windows (cell 3), call the three entry points of
  \<^verbatim>\<open>snewpy.snowglobes\<close> (cell 5), and sum the collated tables into per-bin event
  counts which are plotted (cell 7). The numbers of cells 3 and 7 are floating-point
  numbers. The time windows and the conversion factor are modelled over the rationals. The
  loops that add up the event counts are defined for any type of numbers with any addition
  and zero, so that what is proved of them holds for an addition that rounds; where a whole
  run of the notebook is modelled they are taken with the exact addition of the rationals.
  Python exceptions are modelled as the left summand of a sum type, the external toolkit as three
  functions on an abstract world, and everything the notebook makes visible (prints,
  toolkit calls, plot commands) as a trace of events.
\<close>

subsection \<open>Exceptions\<close>

datatype py_error =
    KeyError string
  | IndexError
  | ZeroDivisionError
  | OtherError string

subsection \<open>Python strings: \<^verbatim>\<open>str(i)\<close> and \<^verbatim>\<open>str.split()\<close>\<close>

definition digit_char :: "nat \<Rightarrow> char" where
  "digit_char d = char_of (48 + d)"

text \<open>\<^verbatim>\<open>str(i)\<close> for a non-negative integer: its decimal digits, no leading zero.\<close>

function str_nat :: "nat \<Rightarrow> string" where
  "str_nat n = (if n < 10 then [digit_char n] else str_nat (n div 10) @ [digit_char (n mod 10)])"
  by pat_completeness auto
termination
  by (relation "measure (\<lambda>n. n)") auto

declare str_nat.simps [simp del]

text \<open>
  A Python \<^verbatim>\<open>str\<close> is a sequence of Unicode code points. The file names and dictionary
  keys of the notebook are only joined and compared for equality, and are kept as
  \<open>string\<close>. The header of a table is split at white space, which depends on the code
  points themselves, and is kept as the list of its code points.
\<close>

type_synonym py_str = "nat list"

text \<open>The code points of a string of ASCII characters.\<close>

definition ascii :: "string \<Rightarrow> py_str" where
  "ascii s = map of_char s"

text \<open>
  The code points for which \<^verbatim>\<open>str.isspace\<close> holds: U+0009 to U+000D, U+001C to U+0020,
  U+0085, U+00A0, U+1680, U+2000 to U+200A, U+2028, U+2029, U+202F, U+205F and U+3000.
\<close>

definition is_space :: "nat \<Rightarrow> bool" where
  "is_space c =
     ((9 \<le> c \<and> c \<le> 13) \<or> (28 \<le> c \<and> c \<le> 32) \<or> c = 133 \<or> c = 160 \<or> c = 5760
      \<or> (8192 \<le> c \<and> c \<le> 8202) \<or> c = 8232 \<or> c = 8233 \<or> c = 8239 \<or> c = 8287
      \<or> c = 12288)"

text \<open>
  \<^verbatim>\<open>s.split()\<close> with no argument: the maximal runs of non-whitespace characters.
  The first argument is the word read so far.
\<close>

fun split_ws :: "py_str \<Rightarrow> py_str \<Rightarrow> py_str list" where
  "split_ws w [] = (if w = [] then [] else [w])"
| "split_ws w (c # cs) =
     (if is_space c then (if w = [] then split_ws [] cs else w # split_ws [] cs)
      else split_ws (w @ [c]) cs)"

definition str_split :: "py_str \<Rightarrow> py_str list" where
  "str_split s = split_ws [] s"

text \<open>
  The builtin \<^verbatim>\<open>sum\<close>: starts from 0 and adds from the left, with the addition of the
  numbers it is given.
\<close>

definition py_sum_with :: "('a \<Rightarrow> 'a \<Rightarrow> 'a) \<Rightarrow> 'a \<Rightarrow> 'a list \<Rightarrow> 'a" where
  "py_sum_with add zero xs = foldl add zero xs"

abbreviation py_sum :: "rat list \<Rightarrow> rat" where
  "py_sum \<equiv> py_sum_with (+) 0"

subsection \<open>Cells 1 and 3: parameters, file names, time windows\<close>

text \<open>
  The global variables the notebook assigns. \<open>window_bins\<close> is a count (a negative one
  would make \<^verbatim>\<open>np.linspace\<close> raise); the two window bounds are the decimal literals
  of the source as rationals.
\<close>

record params =
  SNOwGLoBES_path :: string
  SNEWPY_models_base :: string
  distance :: int
  detector :: string
  modeltype :: string
  model :: string
  transformation :: string
  window_tstart :: rat
  window_tend :: rat
  window_bins :: nat

definition nb_params :: params where
  "nb_params = \<lparr>
     SNOwGLoBES_path = ''/path/to/snowglobes/'',
     SNEWPY_models_base = ''/path/to/snewpy/models/'',
     distance = 10,
     detector = ''icecube'',
     modeltype = ''Zha_2021'',
     model = ''s17'',
     transformation = ''AdiabaticMSW_NMO'',
     window_tstart = 742 / 1000,
     window_tend = 762 / 1000,
     window_bins = 60 \<rparr>"

text \<open>\<^verbatim>\<open>modelfile = SNEWPY_models_base + "/" + modeltype + "/" + model + '.dat'\<close>\<close>

definition modelfile :: "params \<Rightarrow> string" where
  "modelfile p = SNEWPY_models_base p @ ''/'' @ modeltype p @ ''/'' @ model p @ ''.dat''"

text \<open>\<^verbatim>\<open>outfile = modeltype+"_"+model+"_"+transformation\<close>\<close>

definition outfile_of :: "string \<Rightarrow> string \<Rightarrow> string \<Rightarrow> string" where
  "outfile_of mt m tr = mt @ ''_'' @ m @ ''_'' @ tr"

definition outfile :: "params \<Rightarrow> string" where
  "outfile p = outfile_of (modeltype p) (model p) (transformation p)"

text \<open>
  \<^verbatim>\<open>np.linspace(start, stop, num, endpoint=False)\<close>: \<open>num\<close> samples from \<open>start\<close>
  in steps of \<open>(stop - start) / num\<close>; the empty array when \<open>num = 0\<close>. The division
  happens inside numpy and raises nothing.
\<close>

definition linspace :: "rat \<Rightarrow> rat \<Rightarrow> nat \<Rightarrow> rat list" where
  "linspace start stop num =
     map (\<lambda>i. of_nat i * ((stop - start) / of_nat num) + start) [0..<num]"

text \<open>Python's \<open>/\<close> on numbers raises on a zero divisor.\<close>

definition py_div :: "rat \<Rightarrow> rat \<Rightarrow> py_error + rat" where
  "py_div a b = (if b = 0 then Inl ZeroDivisionError else Inr (a / b))"

text \<open>
  Cell 3, option 3. Times are quantities in seconds; the factor \<^verbatim>\<open>u.s\<close> only tags
  the unit and the model keeps the number.
  \<^verbatim>\<open>
  tstart = np.linspace(window_tstart, window_tend, window_bins, endpoint=False) * u.s
  tend = tstart + (window_tend - window_tstart) / window_bins * u.s
  tmid = (tstart + tend) * 0.5
  \<close>
\<close>

definition cell3 :: "params \<Rightarrow> py_error + (rat list \<times> rat list \<times> rat list)" where
  "cell3 p =
     (let tstart = linspace (window_tstart p) (window_tend p) (window_bins p) in
      case py_div (window_tend p - window_tstart p) (of_nat (window_bins p)) of
        Inl e \<Rightarrow> Inl e
      | Inr width \<Rightarrow>
          (let tend = map (\<lambda>t. t + width) tstart;
               tmid = map (\<lambda>(a, b). (a + b) * (1 / 2)) (zip tstart tend)
           in Inr (tstart, tend, tmid)))"

subsection \<open>Cell 5: the external toolkit\<close>

text \<open>
  What \<^verbatim>\<open>snowglobes.collate\<close> returns: a dictionary from file name to a table, the
  table being a dictionary with the entries \<^verbatim>\<open>'header'\<close> (one line of text) and
  \<^verbatim>\<open>'data'\<close> (a two-dimensional array, indexed first by column of the file).
\<close>

record 'a table =
  header :: py_str
  data :: "'a list list"

type_synonym 'a tables = "string \<rightharpoonup> 'a table"

text \<open>
  An external call acts on the world outside the notebook (files, the SNOwGLoBES
  installation) and either raises or returns.
\<close>

type_synonym ('w, 'a) ext = "'w \<Rightarrow> (py_error + 'a) \<times> 'w"

text \<open>
  The three functions of \<^verbatim>\<open>snewpy.snowglobes\<close> the notebook calls. They are not part
  of the repository and are parameters of the model, with the arguments of the calls
  in the notebook.
\<close>

record 'w snowglobes =
  generate_fluence ::
    "string \<Rightarrow> string \<Rightarrow> string \<Rightarrow> int \<Rightarrow> string \<Rightarrow> rat list \<Rightarrow> rat list \<Rightarrow> ('w, string) ext"
  simulate :: "string \<Rightarrow> string \<Rightarrow> string \<Rightarrow> ('w, unit) ext"
  collate :: "string \<Rightarrow> string \<Rightarrow> bool \<Rightarrow> ('w, rat tables) ext"

text \<open>What a run of the notebook does that can be observed, in order.\<close>

datatype event =
    Print string
  | CallGenerateFluence string string string int string "rat list" "rat list"
  | CallSimulate string string string
  | CallCollate string string bool
  | PltPlot "rat list" "rat list"
  | PltXlabel string
  | PltYlabel string
  | PltShow
  | PrintTotal rat

record 'w nb_state =
  world :: 'w
  trace :: "event list"

definition emit :: "event \<Rightarrow> 'w nb_state \<Rightarrow> 'w nb_state" where
  "emit ev s = s\<lparr>trace := trace s @ [ev]\<rparr>"

text \<open>An external call is recorded when it is made, whether it returns or raises.\<close>

definition call_ext :: "event \<Rightarrow> ('w, 'a) ext \<Rightarrow> 'w nb_state \<Rightarrow> (py_error + 'a) \<times> 'w nb_state" where
  "call_ext ev f s =
     (case f (world s) of (r, w') \<Rightarrow> (r, \<lparr>world = w', trace = trace s @ [ev]\<rparr>))"

text \<open>
  \<^verbatim>\<open>
  print("Preparing fluences ...")
  tarredfile = snowglobes.generate_fluence(modelfile, modeltype, transformation,
                                           distance, outfile, tstart, tend)
  print("Running SNOwGLoBES ...")
  snowglobes.simulate(SNOwGLoBES_path, tarredfile, detector_input=detector)
  print("Collating results ...")
  tables = snowglobes.collate(SNOwGLoBES_path, tarredfile, skip_plots=True)
  \<close>
  No \<^verbatim>\<open>try\<close> surrounds a call: an exception ends the run.
\<close>

definition cell5 ::
  "'w snowglobes \<Rightarrow> params \<Rightarrow> rat list \<Rightarrow> rat list \<Rightarrow> 'w nb_state
     \<Rightarrow> (py_error + (string \<times> rat tables)) \<times> 'w nb_state" where
  "cell5 tk p tstart tend s0 =
     (let s1 = emit (Print ''Preparing fluences ...'') s0 in
      case call_ext
             (CallGenerateFluence (modelfile p) (modeltype p) (transformation p) (distance p)
                (outfile p) tstart tend)
             (generate_fluence tk (modelfile p) (modeltype p) (transformation p) (distance p)
                (outfile p) tstart tend) s1 of
        (Inl e, s2) \<Rightarrow> (Inl e, s2)
      | (Inr tarredfile, s2) \<Rightarrow>
          (let s3 = emit (Print ''Running SNOwGLoBES ...'') s2 in
           case call_ext (CallSimulate (SNOwGLoBES_path p) tarredfile (detector p))
                  (simulate tk (SNOwGLoBES_path p) tarredfile (detector p)) s3 of
             (Inl e, s4) \<Rightarrow> (Inl e, s4)
           | (Inr _, s4) \<Rightarrow>
               (let s5 = emit (Print ''Collating results ...'') s4 in
                case call_ext (CallCollate (SNOwGLoBES_path p) tarredfile True)
                       (collate tk (SNOwGLoBES_path p) tarredfile True) s5 of
                  (Inl e, s6) \<Rightarrow> (Inl e, s6)
                | (Inr tabs, s6) \<Rightarrow> (Inr (tarredfile, tabs), s6))))"

subsection \<open>Cell 7: event counts per bin\<close>

text \<open>
  \<^verbatim>\<open>key = f"Collated_{outfile}_{i}_{detector}_events_smeared_weighted.dat"\<close>:
  an f-string joins its literal pieces and the \<^verbatim>\<open>str\<close> of its fields.
\<close>

definition key_of :: "string \<Rightarrow> string \<Rightarrow> nat \<Rightarrow> string" where
  "key_of outf det i =
     concat [''Collated_'', outf, ''_'', str_nat i, ''_'', det, ''_events_smeared_weighted.dat'']"

text \<open>\<^verbatim>\<open>tables[key]\<close> raises \<^verbatim>\<open>KeyError\<close> on a key the dictionary does not have.\<close>

definition lookup_table :: "'a tables \<Rightarrow> string \<Rightarrow> py_error + 'a table" where
  "lookup_table tabs key = (case tabs key of None \<Rightarrow> Inl (KeyError key) | Some t \<Rightarrow> Inr t)"

text \<open>\<^verbatim>\<open>data[j]\<close> with \<open>j \<ge> 0\<close> raises \<^verbatim>\<open>IndexError\<close> past the end of the first axis.\<close>

definition get_row :: "'a list list \<Rightarrow> nat \<Rightarrow> py_error + 'a list" where
  "get_row d j = (if j < length d then Inr (d ! j) else Inl IndexError)"

text \<open>\<^verbatim>\<open>nevents = np.zeros(len(tmid))\<close>\<close>

definition nevents_init_with :: "'a \<Rightarrow> rat list \<Rightarrow> 'a list" where
  "nevents_init_with zero tmid = replicate (length tmid) zero"

abbreviation nevents_init :: "rat list \<Rightarrow> rat list" where
  "nevents_init \<equiv> nevents_init_with 0"

text \<open>
  The inner loop over \<open>j\<close>, for the values of \<open>j\<close> still to come:
  \<^verbatim>\<open>nevents[i] += sum(tables[key]['data'][j])\<close>. The dictionary is indexed again in
  each iteration.
\<close>

fun inner_loop ::
  "('a \<Rightarrow> 'a \<Rightarrow> 'a) \<Rightarrow> 'a \<Rightarrow> 'a tables \<Rightarrow> string \<Rightarrow> nat \<Rightarrow> nat list \<Rightarrow> 'a list
     \<Rightarrow> py_error + 'a list" where
  "inner_loop add zero tabs key i [] nevents = Inr nevents"
| "inner_loop add zero tabs key i (j # js) nevents =
     (case lookup_table tabs key of
        Inl e \<Rightarrow> Inl e
      | Inr t \<Rightarrow>
          (case get_row (data t) j of
             Inl e \<Rightarrow> Inl e
           | Inr col \<Rightarrow>
               inner_loop add zero tabs key i js
                 (nevents[i := add (nevents ! i) (py_sum_with add zero col)])))"

text \<open>
  The outer loop over \<open>i\<close>, for the values of \<open>i\<close> still to come. The bounds of the inner
  \<^verbatim>\<open>range(1,len(tables[key]['header'].split()))\<close> are computed once, before its
  first iteration.
\<close>

fun outer_loop ::
  "('a \<Rightarrow> 'a \<Rightarrow> 'a) \<Rightarrow> 'a \<Rightarrow> 'a tables \<Rightarrow> string \<Rightarrow> string \<Rightarrow> nat list \<Rightarrow> 'a list
     \<Rightarrow> py_error + 'a list" where
  "outer_loop add zero tabs outf det [] nevents = Inr nevents"
| "outer_loop add zero tabs outf det (i # is) nevents =
     (let key = key_of outf det i in
      case lookup_table tabs key of
        Inl e \<Rightarrow> Inl e
      | Inr t \<Rightarrow>
          (case inner_loop add zero tabs key i [1..<length (str_split (header t))] nevents of
             Inl e \<Rightarrow> Inl e
           | Inr nevents' \<Rightarrow> outer_loop add zero tabs outf det is nevents'))"

text \<open>
  \<^verbatim>\<open>
  nevents = np.zeros(len(tmid))
  for i in range(len(tmid)):
      key = f"Collated_{outfile}_{i}_{detector}_events_smeared_weighted.dat"
      for j in range(1,len(tables[key]['header'].split())):
          nevents[i] += sum(tables[key]['data'][j])
  \<close>
\<close>

definition aggregate_with ::
  "('a \<Rightarrow> 'a \<Rightarrow> 'a) \<Rightarrow> 'a \<Rightarrow> 'a tables \<Rightarrow> string \<Rightarrow> string \<Rightarrow> rat list
     \<Rightarrow> py_error + 'a list" where
  "aggregate_with add zero tabs outf det tmid =
     outer_loop add zero tabs outf det [0..<length tmid] (nevents_init_with zero tmid)"

text \<open>The loops with the exact addition of the rationals.\<close>

abbreviation aggregate :: "rat tables \<Rightarrow> string \<Rightarrow> string \<Rightarrow> rat list \<Rightarrow> py_error + rat list" where
  "aggregate \<equiv> aggregate_with (+) 0"

text \<open>\<^verbatim>\<open>factor = window_bins / (window_tend - window_tstart) / 1000\<close>\<close>

definition compute_factor :: "params \<Rightarrow> py_error + rat" where
  "compute_factor p =
     (case py_div (of_nat (window_bins p)) (window_tend p - window_tstart p) of
        Inl e \<Rightarrow> Inl e
      | Inr q \<Rightarrow> py_div q 1000)"

text \<open>
  The whole cell: the loops, then
  \<^verbatim>\<open>
  factor = window_bins / (window_tend - window_tstart) / 1000
  plt.plot(tmid - 0.742 * u.s, nevents * factor)
  plt.xlabel("$t-t_{2c}$ [s]")
  plt.ylabel("Counts [ms$^{-1}$]")
  plt.show()
  print("Total Events:", sum(nevents))
  \<close>
\<close>

definition cell7 ::
  "params \<Rightarrow> rat list \<Rightarrow> rat tables \<Rightarrow> 'w nb_state \<Rightarrow> (py_error + rat list) \<times> 'w nb_state" where
  "cell7 p tmid tabs s0 =
     (case aggregate tabs (outfile p) (detector p) tmid of
        Inl e \<Rightarrow> (Inl e, s0)
      | Inr nevents \<Rightarrow>
          (case compute_factor p of
             Inl e \<Rightarrow> (Inl e, s0)
           | Inr factor \<Rightarrow>
               (let s1 = emit (PltPlot (map (\<lambda>t. t - 742 / 1000) tmid)
                                       (map (\<lambda>n. n * factor) nevents)) s0;
                    s2 = emit (PltXlabel ''$t-t_{2c}$ [s]'') s1;
                    s3 = emit (PltYlabel ''Counts [ms$^{-1}$]'') s2;
                    s4 = emit PltShow s3;
                    s5 = emit (PrintTotal (py_sum nevents)) s4
                in (Inr nevents, s5))))"

subsection \<open>The notebook, run from top to bottom\<close>

definition notebook ::
  "'w snowglobes \<Rightarrow> params \<Rightarrow> 'w \<Rightarrow> (py_error + rat list) \<times> 'w nb_state" where
  "notebook tk p w0 =
     (let s0 = \<lparr>world = w0, trace = []\<rparr> in
      case cell3 p of
        Inl e \<Rightarrow> (Inl e, s0)
      | Inr (tstart, tend, tmid) \<Rightarrow>
          (case cell5 tk p tstart tend s0 of
             (Inl e, s1) \<Rightarrow> (Inl e, s1)
           | (Inr (tarredfile, tabs), s1) \<Rightarrow> cell7 p tmid tabs s1))"

subsection \<open>Reading a decimal numeral back\<close>

definition digit_val :: "char \<Rightarrow> nat" where
  "digit_val c = of_char c - 48"

definition nat_of_str :: "string \<Rightarrow> nat" where
  "nat_of_str s = foldl (\<lambda>a c. 10 * a + digit_val c) 0 s"

subsection \<open>What the specification says of a table\<close>

text \<open>
  The event count of one table in the words of the specification: the sum, over the
  columns \<open>j = 1, \<dots>, len(header.split()) - 1\<close>, of the sum of column \<open>j\<close>, every
  sum taken as \<^verbatim>\<open>sum\<close> takes it.
\<close>

definition bin_sum_with :: "('a \<Rightarrow> 'a \<Rightarrow> 'a) \<Rightarrow> 'a \<Rightarrow> 'a table \<Rightarrow> 'a" where
  "bin_sum_with add zero t =
     py_sum_with add zero
       (map (\<lambda>j. py_sum_with add zero (data t ! j)) [1..<length (str_split (header t))])"

abbreviation bin_sum :: "rat table \<Rightarrow> rat" where
  "bin_sum \<equiv> bin_sum_with (+) 0"

text \<open>
  What the inner loop makes of an entry \<open>a\<close> of \<open>nevents\<close>: the sums of the columns
  added to it one after the other.
\<close>

definition bin_add :: "('a \<Rightarrow> 'a \<Rightarrow> 'a) \<Rightarrow> 'a \<Rightarrow> 'a table \<Rightarrow> 'a \<Rightarrow> 'a" where
  "bin_add add zero t a =
     foldl (\<lambda>acc j. add acc (py_sum_with add zero (data t ! j))) a
       [1..<length (str_split (header t))]"

text \<open>A table has a column of data for every word of its header but the first.\<close>

definition columns_present :: "'a table \<Rightarrow> bool" where
  "columns_present t =
     (length (str_split (header t)) \<le> 1 \<or> length (str_split (header t)) \<le> length (data t))"

text \<open>The common width of the time bins, in seconds.\<close>

definition bin_width :: "params \<Rightarrow> rat" where
  "bin_width p = (window_tend p - window_tstart p) / of_nat (window_bins p)"

subsection \<open>The three calls as the notebook writes them\<close>

abbreviation gf_call :: "'w snowglobes \<Rightarrow> params \<Rightarrow> rat list \<Rightarrow> rat list \<Rightarrow> ('w, string) ext" where
  "gf_call tk p tstart tend \<equiv>
     generate_fluence tk (modelfile p) (modeltype p) (transformation p) (distance p)
       (outfile p) tstart tend"

abbreviation gf_event :: "params \<Rightarrow> rat list \<Rightarrow> rat list \<Rightarrow> event" where
  "gf_event p tstart tend \<equiv>
     CallGenerateFluence (modelfile p) (modeltype p) (transformation p) (distance p)
       (outfile p) tstart tend"

abbreviation sim_call :: "'w snowglobes \<Rightarrow> params \<Rightarrow> string \<Rightarrow> ('w, unit) ext" where
  "sim_call tk p tarredfile \<equiv> simulate tk (SNOwGLoBES_path p) tarredfile (detector p)"

abbreviation sim_event :: "params \<Rightarrow> string \<Rightarrow> event" where
  "sim_event p tarredfile \<equiv> CallSimulate (SNOwGLoBES_path p) tarredfile (detector p)"

abbreviation col_call :: "'w snowglobes \<Rightarrow> params \<Rightarrow> string \<Rightarrow> ('w, rat tables) ext" where
  "col_call tk p tarredfile \<equiv> collate tk (SNOwGLoBES_path p) tarredfile True"

abbreviation col_event :: "params \<Rightarrow> string \<Rightarrow> event" where
  "col_event p tarredfile \<equiv> CallCollate (SNOwGLoBES_path p) tarredfile True"

text \<open>The plot commands and the final print of cell 7, for given counts and factor.\<close>

abbreviation plot_events :: "rat list \<Rightarrow> rat list \<Rightarrow> rat \<Rightarrow> event list" where
  "plot_events tmid nevents factor \<equiv>
     [PltPlot (map (\<lambda>t. t - 742 / 1000) tmid) (map (\<lambda>n. n * factor) nevents),
      PltXlabel ''$t-t_{2c}$ [s]'', PltYlabel ''Counts [ms$^{-1}$]'', PltShow,
      PrintTotal (py_sum nevents)]"

subsection \<open>Classifying events\<close>


subsection \<open>Concrete inputs\<close>

text \<open>
  A table of three columns with two rows each, and the same table with the data of its
  last column missing.
\<close>

definition example_table :: "rat table" where
  "example_table =
     \<lparr>header = ascii ''Energy(GeV)  ibd  nue_O16'',
      data = [[1 / 1000, 2 / 1000], [3, 4], [5, 6]]\<rparr>"

definition short_table :: "rat table" where
  "short_table =
     \<lparr>header = ascii ''Energy(GeV)  ibd  nue_O16'', data = [[1 / 1000, 2 / 1000], [3, 4]]\<rparr>"

text \<open>
  An addition that rounds, as the addition of floating-point numbers does: the sum of two
  natural numbers rounded down to an even number. It is not associative. With it, a
  table whose second column holds \<open>2\<^sup>5\<^sup>3\<close> and \<open>1\<close>.
\<close>

definition add_even :: "nat \<Rightarrow> nat \<Rightarrow> nat" where
  "add_even a b = 2 * ((a + b) div 2)"

definition big_table :: "nat table" where
  "big_table = \<lparr>header = ascii ''Energy(GeV)  ibd'', data = [[1, 2], [9007199254740992, 1]]\<rparr>"

text \<open>The dictionary with one entry for each bin of the given parameters, all the same table.\<close>

definition tables_of :: "params \<Rightarrow> 'a table \<Rightarrow> 'a tables" where
  "tables_of p t =
     map_of (map (\<lambda>i. (key_of (outfile p) (detector p) i, t)) [0..<window_bins p])"

text \<open>
  A toolkit whose world is the number of calls made so far. Its call number \<open>k\<close>
  (counting from 0) raises, the others return; \<^verbatim>\<open>collate\<close> returns the given tables.
\<close>

definition stub_toolkit :: "nat \<Rightarrow> rat tables \<Rightarrow> nat snowglobes" where
  "stub_toolkit k tabs = \<lparr>
     generate_fluence = (\<lambda>mfile mtype trans dist outf tstart tend w.
       (if k = 0 then Inl (OtherError ''generate_fluence'') else Inr (outf @ ''.tar.bz2''), Suc w)),
     simulate = (\<lambda>path tarred det w.
       (if k = 1 then Inl (OtherError ''simulate'') else Inr (), Suc w)),
     collate = (\<lambda>path tarred skip w.
       (if k = 2 then Inl (OtherError ''collate'') else Inr tabs, Suc w)) \<rparr>"

section \<open>Properties\<close>

subsection \<open>Decimal numerals\<close>

lemma digit_val_digit_char: "d < 10 \<Longrightarrow> digit_val (digit_char d) = d"
  by (simp add: digit_val_def digit_char_def)

lemma nat_of_str_snoc: "nat_of_str (s @ [c]) = 10 * nat_of_str s + digit_val c"
  by (simp add: nat_of_str_def)

lemma nat_of_str_str_nat: "nat_of_str (str_nat n) = n"
proof (induction n rule: str_nat.induct)
  case (1 n)
  show ?case
  proof (cases "n < 10")
    case True
    then show ?thesis
      by (simp add: str_nat.simps [of n] nat_of_str_def digit_val_digit_char)
  next
    case False
    with 1 have "nat_of_str (str_nat (n div 10)) = n div 10"
      by simp
    with False show ?thesis
      by (simp add: str_nat.simps [of n] nat_of_str_snoc digit_val_digit_char)
  qed
qed

lemma str_nat_inj: "str_nat i = str_nat j \<longleftrightarrow> i = j"
  using nat_of_str_str_nat by metis

lemma key_of_inj: "key_of outf det i = key_of outf det j \<longleftrightarrow> i = j"
  by (simp add: key_of_def str_nat_inj)

text \<open>
  C3: the key of bin \<open>i\<close> is \<^verbatim>\<open>"Collated_" + outfile + "_" + str(i) + "_" + detector +
  "_events_smeared_weighted.dat"\<close> with \<^verbatim>\<open>outfile = modeltype + "_" + model + "_" +
  transformation\<close>, and distinct bin indices give distinct keys.
\<close>

theorem C3_key_format_injective:
  "key_of (outfile p) (detector p) i =
     ''Collated_'' @ (modeltype p @ ''_'' @ model p @ ''_'' @ transformation p) @ ''_'' @
     str_nat i @ ''_'' @ detector p @ ''_events_smeared_weighted.dat''
   \<and> (i \<noteq> j \<longrightarrow> key_of (outfile p) (detector p) i \<noteq> key_of (outfile p) (detector p) j)"
  by (simp add: key_of_def outfile_def outfile_of_def str_nat_inj)

theorem C3_witness:
  "key_of (outfile nb_params) (detector nb_params) 7 =
     ''Collated_Zha_2021_s17_AdiabaticMSW_NMO_7_icecube_events_smeared_weighted.dat''
   \<and> (7::nat) \<noteq> 12
   \<and> key_of (outfile nb_params) (detector nb_params) 7 \<noteq>
     key_of (outfile nb_params) (detector nb_params) 12"
proof -
  have k: "key_of (outfile nb_params) (detector nb_params) 7 =
     ''Collated_Zha_2021_s17_AdiabaticMSW_NMO_7_icecube_events_smeared_weighted.dat''"
    by code_simp
  have n: "(7::nat) \<noteq> 12"
    by simp
  from n C3_key_format_injective [of nb_params 7 12]
  have "key_of (outfile nb_params) (detector nb_params) 7 \<noteq>
     key_of (outfile nb_params) (detector nb_params) 12"
    by blast
  with k n show ?thesis
    by blast
qed

subsection \<open>White space\<close>

lemma is_space_latin1: "is_space 133" "is_space 160" "\<not> is_space 69"
  by (simp_all add: is_space_def)

lemma str_split_nbsp: "str_split [69, 160, 97, 32, 98] = [[69], [97], [98]]"
  by (simp add: str_split_def is_space_def)

subsection \<open>The aggregation loops\<close>

lemma py_sum_sum_list: "py_sum xs = sum_list xs"
proof -
  have "foldl (+) a xs = a + sum_list xs" for a :: rat
    by (induction xs arbitrary: a) (simp_all add: add.assoc)
  then show ?thesis
    by (simp add: py_sum_with_def)
qed

lemma bin_sum_bin_add: "bin_sum_with add zero t = bin_add add zero t zero"
  by (simp add: bin_sum_with_def bin_add_def py_sum_with_def foldl_map)

lemma bin_add_exact: "bin_add (+) 0 t a = a + bin_sum t" for a :: rat
proof -
  have shift: "foldl (\<lambda>acc j. acc + f j) a js = a + foldl (\<lambda>acc j. acc + f j) 0 js"
    for f :: "nat \<Rightarrow> rat" and js
  proof (induction js arbitrary: a)
    case Nil
    then show ?case by simp
  next
    case (Cons j js)
    show ?case
      unfolding foldl_Cons Cons.IH [of "a + f j"] Cons.IH [of "0 + f j"]
      by (simp add: add.assoc)
  qed
  show ?thesis
    unfolding bin_sum_bin_add bin_add_def by (rule shift)
qed

lemma bin_sum_exact:
  "bin_sum t = (\<Sum>j\<leftarrow>[1..<length (str_split (header t))]. sum_list (data t ! j))"
  by (simp add: bin_sum_with_def py_sum_sum_list)

lemma inner_loop_present:
  assumes "tabs key = Some t" and "i < length nevents"
  shows "inner_loop add zero tabs key i js nevents =
           (if \<forall>j\<in>set js. j < length (data t)
            then Inr (nevents[i := foldl (\<lambda>acc j. add acc (py_sum_with add zero (data t ! j)))
                                     (nevents ! i) js])
            else Inl IndexError)"
  using assms(2)
proof (induction js arbitrary: nevents)
  case Nil
  then show ?case by simp
next
  case (Cons j js)
  let ?f = "\<lambda>acc j. add acc (py_sum_with add zero (data t ! j))"
  show ?case
  proof (cases "j < length (data t)")
    case True
    let ?n = "nevents[i := ?f (nevents ! i) j]"
    have len: "i < length ?n"
      using Cons.prems by simp
    have "inner_loop add zero tabs key i (j # js) nevents = inner_loop add zero tabs key i js ?n"
      using assms(1) True by (simp add: lookup_table_def get_row_def)
    also have "\<dots> = (if \<forall>j\<in>set js. j < length (data t)
            then Inr (?n[i := foldl ?f (?n ! i) js])
            else Inl IndexError)"
      by (rule Cons.IH [OF len])
    finally show ?thesis
      using True Cons.prems by simp
  next
    case False
    then show ?thesis
      using assms(1) by (simp add: lookup_table_def get_row_def)
  qed
qed

lemma columns_present_iff:
  "columns_present t \<longleftrightarrow> (\<forall>j\<in>set [1..<length (str_split (header t))]. j < length (data t))"
proof
  assume "columns_present t"
  then show "\<forall>j\<in>set [1..<length (str_split (header t))]. j < length (data t)"
    by (auto simp: columns_present_def)
next
  let ?n = "length (str_split (header t))"
  assume all: "\<forall>j\<in>set [1..<?n]. j < length (data t)"
  show "columns_present t"
  proof (cases "?n \<le> 1")
    case True
    then show ?thesis
      by (simp add: columns_present_def)
  next
    case False
    then have "1 \<le> ?n - 1 \<and> ?n - 1 < ?n"
      by arith
    then have "?n - 1 \<in> set [1..<?n]"
      by simp
    with all have "?n - 1 < length (data t)"
      by blast
    with False show ?thesis
      by (simp add: columns_present_def)
  qed
qed

lemma inner_loop_bin:
  assumes "tabs key = Some t" and "i < length nevents"
  shows "inner_loop add zero tabs key i [1..<length (str_split (header t))] nevents =
           (if columns_present t then Inr (nevents[i := bin_add add zero t (nevents ! i)])
            else Inl IndexError)"
  unfolding inner_loop_present [of tabs key t i nevents, OF assms] columns_present_iff bin_add_def ..

lemma outer_loop_step:
  "outer_loop add zero tabs outf det (i # is) nevents =
     (case tabs (key_of outf det i) of
        None \<Rightarrow> Inl (KeyError (key_of outf det i))
      | Some t \<Rightarrow>
          (case inner_loop add zero tabs (key_of outf det i) i
                  [1..<length (str_split (header t))] nevents of
             Inl e \<Rightarrow> Inl e
           | Inr nevents' \<Rightarrow> outer_loop add zero tabs outf det is nevents'))"
  by (simp add: lookup_table_def Let_def split: option.split)

lemma outer_loop_absent:
  assumes "tabs (key_of outf det i) = None"
  shows "outer_loop add zero tabs outf det (i # is) nevents = Inl (KeyError (key_of outf det i))"
  by (simp only: outer_loop_step assms option.case)

lemma outer_loop_present:
  assumes "tabs (key_of outf det i) = Some t" and "i < length nevents"
  shows "outer_loop add zero tabs outf det (i # is) nevents =
           (if columns_present t
            then outer_loop add zero tabs outf det is (nevents[i := bin_add add zero t (nevents ! i)])
            else Inl IndexError)"
proof -
  note bin = inner_loop_bin [of tabs "key_of outf det i" t i nevents, OF assms]
  show ?thesis
  proof (cases "columns_present t")
    case True
    then show ?thesis
      by (simp only: outer_loop_step assms(1) option.case bin if_True sum.case)
  next
    case False
    then show ?thesis
      by (simp only: outer_loop_step assms(1) option.case bin if_False sum.case)
  qed
qed

lemma outer_loop_Inr:
  assumes "outer_loop add zero tabs outf det is nevents = Inr nevents'"
    and "distinct is" and "\<forall>i\<in>set is. i < length nevents"
  shows "length nevents' = length nevents
         \<and> (\<forall>i\<in>set is. \<exists>t. tabs (key_of outf det i) = Some t \<and> columns_present t
                \<and> nevents' ! i = bin_add add zero t (nevents ! i))
         \<and> (\<forall>k. k \<notin> set is \<longrightarrow> nevents' ! k = nevents ! k)"
  using assms
proof (induction "is" arbitrary: nevents)
  case Nil
  then show ?case by simp
next
  case (Cons i "is")
  from Cons.prems(1) obtain t where t: "tabs (key_of outf det i) = Some t"
    by (cases "tabs (key_of outf det i)") (simp_all only: outer_loop_absent sum.distinct)
  have i: "i < length nevents"
    using Cons.prems(3) by simp
  note step = outer_loop_present [of tabs outf det i t nevents add zero "is", OF t i]
  let ?n = "nevents[i := bin_add add zero t (nevents ! i)]"
  from Cons.prems(1) t have ok: "columns_present t"
    and rest: "outer_loop add zero tabs outf det is ?n = Inr nevents'"
    unfolding step by (auto split: if_splits)
  have "\<forall>i\<in>set is. i < length ?n"
    using Cons.prems(3) by simp
  with Cons.IH [OF rest] Cons.prems(2)
  have IH: "length nevents' = length ?n"
    "\<forall>k\<in>set is. \<exists>t. tabs (key_of outf det k) = Some t \<and> columns_present t
                \<and> nevents' ! k = bin_add add zero t (?n ! k)"
    "\<forall>k. k \<notin> set is \<longrightarrow> nevents' ! k = ?n ! k"
    by auto
  have notin: "i \<notin> set is"
    using Cons.prems(2) by simp
  have "nevents' ! i = bin_add add zero t (nevents ! i)"
    using IH(3) notin i by simp
  moreover have "\<exists>t. tabs (key_of outf det k) = Some t \<and> columns_present t
                \<and> nevents' ! k = bin_add add zero t (nevents ! k)" if "k \<in> set is" for k
  proof -
    from that notin have "k \<noteq> i" by auto
    with IH(2) that show ?thesis by auto
  qed
  moreover have "nevents' ! k = nevents ! k" if "k \<notin> set (i # is)" for k
    using that IH(3) by auto
  ultimately show ?case
    using IH(1) t ok by auto
qed

lemma outer_loop_all_present:
  assumes "\<forall>i\<in>set is. \<exists>t. tabs (key_of outf det i) = Some t \<and> columns_present t"
    and "\<forall>i\<in>set is. i < length nevents"
  shows "\<exists>nevents'. outer_loop add zero tabs outf det is nevents = Inr nevents'"
  using assms
proof (induction "is" arbitrary: nevents)
  case Nil
  then show ?case by simp
next
  case (Cons i "is")
  from Cons.prems(1) obtain t where t: "tabs (key_of outf det i) = Some t" "columns_present t"
    by auto
  have i: "i < length nevents"
    using Cons.prems(2) by simp
  let ?n = "nevents[i := bin_add add zero t (nevents ! i)]"
  have "outer_loop add zero tabs outf det (i # is) nevents
          = outer_loop add zero tabs outf det is ?n"
    unfolding outer_loop_present [of tabs outf det i t nevents add zero "is", OF t(1) i]
    using t(2) by simp
  moreover have "\<exists>nevents'. outer_loop add zero tabs outf det is ?n = Inr nevents'"
    using Cons.prems by (intro Cons.IH) auto
  ultimately show ?case by simp
qed

lemma outer_loop_append:
  "outer_loop add zero tabs outf det (xs @ ys) nevents =
     (case outer_loop add zero tabs outf det xs nevents of
        Inl e \<Rightarrow> Inl e
      | Inr nevents' \<Rightarrow> outer_loop add zero tabs outf det ys nevents')"
  by (induction xs arbitrary: nevents) (auto simp: Let_def split: sum.splits)

lemma inner_loop_cong:
  "tabs key = tabs' key \<Longrightarrow>
     inner_loop add zero tabs key i js nevents = inner_loop add zero tabs' key i js nevents"
  by (induction js arbitrary: nevents) (auto simp: lookup_table_def split: sum.splits option.splits)

lemma outer_loop_cong:
  "\<forall>i\<in>set is. tabs (key_of outf det i) = tabs' (key_of outf det i) \<Longrightarrow>
     outer_loop add zero tabs outf det is nevents = outer_loop add zero tabs' outf det is nevents"
proof (induction "is" arbitrary: nevents)
  case Nil
  then show ?case by simp
next
  case (Cons i "is")
  then have eq: "tabs (key_of outf det i) = tabs' (key_of outf det i)"
    and IH: "\<And>n. outer_loop add zero tabs outf det is n = outer_loop add zero tabs' outf det is n"
    by auto
  show ?case
    unfolding outer_loop_step inner_loop_cong [of tabs "key_of outf det i" tabs', OF eq] IH eq ..
qed

subsection \<open>The time windows\<close>

lemma length_linspace: "length (linspace a b n) = n"
  by (simp add: linspace_def)

lemma nth_linspace: "i < n \<Longrightarrow> linspace a b n ! i = a + of_nat i * ((b - a) / of_nat n)"
  by (simp add: linspace_def add.commute)

lemma cell3_zero: "window_bins p = 0 \<Longrightarrow> cell3 p = Inl ZeroDivisionError"
  by (simp add: cell3_def py_div_def)

lemma cell3_Inr:
  assumes "window_bins p \<noteq> 0"
  shows "cell3 p =
    Inr (linspace (window_tstart p) (window_tend p) (window_bins p),
         map (\<lambda>t. t + bin_width p) (linspace (window_tstart p) (window_tend p) (window_bins p)),
         map (\<lambda>(a, b). (a + b) * (1 / 2))
           (zip (linspace (window_tstart p) (window_tend p) (window_bins p))
                (map (\<lambda>t. t + bin_width p)
                   (linspace (window_tstart p) (window_tend p) (window_bins p)))))"
  using assms by (simp add: cell3_def py_div_def bin_width_def Let_def)

lemma cell3_lengths:
  assumes "cell3 p = Inr (tstart, tend, tmid)"
  shows "window_bins p \<noteq> 0" "length tstart = window_bins p" "length tend = window_bins p"
    "length tmid = window_bins p"
proof -
  show nz: "window_bins p \<noteq> 0"
    using assms cell3_zero [of p] by auto
  from assms show "length tstart = window_bins p" "length tend = window_bins p"
    "length tmid = window_bins p"
    unfolding cell3_Inr [OF nz] by (auto simp: length_linspace)
qed

lemma cell3_nth:
  assumes "cell3 p = Inr (tstart, tend, tmid)" and "i < window_bins p"
  shows "tstart ! i = window_tstart p + of_nat i * bin_width p"
    and "tend ! i = tstart ! i + bin_width p"
    and "tmid ! i = (tstart ! i + tend ! i) / 2"
proof -
  have nz: "window_bins p \<noteq> 0"
    using assms(1) by (rule cell3_lengths)
  from assms(1) have ts: "tstart = linspace (window_tstart p) (window_tend p) (window_bins p)"
    and te: "tend = map (\<lambda>t. t + bin_width p) tstart"
    and tm: "tmid = map (\<lambda>(a, b). (a + b) * (1 / 2)) (zip tstart tend)"
    unfolding cell3_Inr [OF nz] by auto
  have len: "length tstart = window_bins p"
    using assms(1) by (rule cell3_lengths)
  show "tstart ! i = window_tstart p + of_nat i * bin_width p"
    using assms(2) by (simp add: ts nth_linspace bin_width_def)
  show "tend ! i = tstart ! i + bin_width p"
    using assms(2) len by (simp add: te)
  have "length tend = window_bins p"
    using assms(1) by (rule cell3_lengths)
  with len assms(2) show "tmid ! i = (tstart ! i + tend ! i) / 2"
    by (simp add: tm)
qed

text \<open>
  C2: for every bin \<open>i < window_bins\<close> the windows are
  \<open>tstart[i] = window_tstart + i * (window_tend - window_tstart) / window_bins\<close>,
  \<open>tend[i] = tstart[i] + (window_tend - window_tstart) / window_bins\<close> and
  \<open>tmid[i] = (tstart[i] + tend[i]) / 2\<close>, over the rationals; cell 3 returns them
  whenever \<open>window_bins\<close> is not zero.
\<close>

theorem C2_window_boundaries:
  assumes "window_bins p \<noteq> 0"
  shows "\<exists>tstart tend tmid. cell3 p = Inr (tstart, tend, tmid)
     \<and> length tstart = window_bins p \<and> length tend = window_bins p
     \<and> length tmid = window_bins p
     \<and> (\<forall>i<window_bins p.
          tstart ! i = window_tstart p
             + of_nat i * (window_tend p - window_tstart p) / of_nat (window_bins p)
        \<and> tend ! i = tstart ! i + (window_tend p - window_tstart p) / of_nat (window_bins p)
        \<and> tmid ! i = (tstart ! i + tend ! i) / 2)"
proof -
  from cell3_Inr [OF assms] obtain tstart tend tmid
    where c: "cell3 p = Inr (tstart, tend, tmid)"
    by blast
  have "tstart ! i = window_tstart p
             + of_nat i * (window_tend p - window_tstart p) / of_nat (window_bins p)
        \<and> tend ! i = tstart ! i + (window_tend p - window_tstart p) / of_nat (window_bins p)
        \<and> tmid ! i = (tstart ! i + tend ! i) / 2" if "i < window_bins p" for i
    using cell3_nth [OF c that] by (simp add: bin_width_def)
  with c cell3_lengths [OF c] show ?thesis
    by blast
qed

theorem C2_witness:
  "window_bins nb_params \<noteq> 0
   \<and> (\<exists>tstart tend tmid. cell3 nb_params = Inr (tstart, tend, tmid)
        \<and> length tmid = 60
        \<and> tstart ! 3 = 743 / 1000 \<and> tend ! 3 = 223 / 300 \<and> tmid ! 3 = 4459 / 6000)"
proof -
  have nz: "window_bins nb_params \<noteq> 0"
    by (simp add: nb_params_def)
  from C2_window_boundaries [OF nz] obtain tstart tend tmid
    where c: "cell3 nb_params = Inr (tstart, tend, tmid)"
      and len: "length tmid = window_bins nb_params"
      and nth: "\<forall>i<window_bins nb_params.
          tstart ! i = window_tstart nb_params
             + of_nat i * (window_tend nb_params - window_tstart nb_params)
               / of_nat (window_bins nb_params)
        \<and> tend ! i = tstart ! i + (window_tend nb_params - window_tstart nb_params)
               / of_nat (window_bins nb_params)
        \<and> tmid ! i = (tstart ! i + tend ! i) / 2"
    by blast
  have "(3::nat) < window_bins nb_params"
    by (simp add: nb_params_def)
  with nth have "tstart ! 3 = window_tstart nb_params
             + of_nat 3 * (window_tend nb_params - window_tstart nb_params)
               / of_nat (window_bins nb_params)
        \<and> tend ! 3 = tstart ! 3 + (window_tend nb_params - window_tstart nb_params)
               / of_nat (window_bins nb_params)
        \<and> tmid ! 3 = (tstart ! 3 + tend ! 3) / 2"
    by blast
  then have "tstart ! 3 = 743 / 1000 \<and> tend ! 3 = 223 / 300 \<and> tmid ! 3 = 4459 / 6000"
    by (simp add: nb_params_def)
  with nz c len show ?thesis
    by (auto simp: nb_params_def)
qed

text \<open>
  C9: the windows are contiguous and of equal width: \<open>tstart[0] = window_tstart\<close>,
  \<open>tend[i] = tstart[i+1]\<close> for \<open>i < window_bins - 1\<close>,
  \<open>tend[window_bins - 1] = window_tend\<close>, and every bin has the width
  \<open>(window_tend - window_tstart) / window_bins\<close>, over the rationals.
\<close>

theorem C9_contiguous_partition:
  assumes "window_bins p \<noteq> 0"
  shows "\<exists>tstart tend tmid. cell3 p = Inr (tstart, tend, tmid)
     \<and> tstart ! 0 = window_tstart p
     \<and> (\<forall>i. i + 1 < window_bins p \<longrightarrow> tend ! i = tstart ! (i + 1))
     \<and> tend ! (window_bins p - 1) = window_tend p
     \<and> (\<forall>i<window_bins p.
          tend ! i - tstart ! i = (window_tend p - window_tstart p) / of_nat (window_bins p))"
proof -
  from cell3_Inr [OF assms] obtain tstart tend tmid
    where c: "cell3 p = Inr (tstart, tend, tmid)"
    by blast
  note nth = cell3_nth [OF c]
  have pos: "0 < window_bins p"
    using assms by simp
  have first: "tstart ! 0 = window_tstart p"
    using nth(1) [OF pos] by simp
  have adj: "tend ! i = tstart ! (i + 1)" if "i + 1 < window_bins p" for i
  proof -
    from that have i: "i < window_bins p"
      by simp
    show ?thesis
      unfolding nth(2) [OF i] nth(1) [OF i] nth(1) [OF that]
      by (simp add: algebra_simps)
  qed
  have last: "tend ! (window_bins p - 1) = window_tend p"
  proof -
    have l: "window_bins p - 1 < window_bins p"
      using assms by simp
    have "of_nat (window_bins p - 1) * bin_width p + bin_width p
            = of_nat (window_bins p) * bin_width p"
      using pos by (simp add: of_nat_diff algebra_simps)
    also have "\<dots> = window_tend p - window_tstart p"
      using assms by (simp add: bin_width_def)
    finally show ?thesis
      unfolding nth(2) [OF l] nth(1) [OF l] by simp
  qed
  have width: "tend ! i - tstart ! i = (window_tend p - window_tstart p) / of_nat (window_bins p)"
    if "i < window_bins p" for i
    unfolding nth(2) [OF that] by (simp add: bin_width_def)
  from c first adj last width show ?thesis
    by blast
qed

theorem C9_witness:
  "window_bins nb_params \<noteq> 0
   \<and> (\<exists>tstart tend tmid. cell3 nb_params = Inr (tstart, tend, tmid)
        \<and> tstart ! 0 = 742 / 1000 \<and> tend ! 58 = tstart ! 59 \<and> tend ! 59 = 762 / 1000
        \<and> tend ! 17 - tstart ! 17 = 1 / 3000)"
proof -
  have nz: "window_bins nb_params \<noteq> 0"
    by (simp add: nb_params_def)
  from C9_contiguous_partition [OF nz] obtain tstart tend tmid
    where c: "cell3 nb_params = Inr (tstart, tend, tmid)"
      and first: "tstart ! 0 = window_tstart nb_params"
      and adj: "\<forall>i. i + 1 < window_bins nb_params \<longrightarrow> tend ! i = tstart ! (i + 1)"
      and last: "tend ! (window_bins nb_params - 1) = window_tend nb_params"
      and width: "\<forall>i<window_bins nb_params. tend ! i - tstart ! i
          = (window_tend nb_params - window_tstart nb_params) / of_nat (window_bins nb_params)"
    by blast
  have "tstart ! 0 = 742 / 1000"
    using first by (simp add: nb_params_def)
  moreover have "tend ! 58 = tstart ! 59"
    using adj [rule_format, of 58] by (simp add: nb_params_def)
  moreover have "tend ! 59 = 762 / 1000"
    using last by (simp add: nb_params_def)
  moreover have "tend ! 17 - tstart ! 17 = 1 / 3000"
    using width [rule_format, of 17] by (simp add: nb_params_def)
  ultimately show ?thesis
    using nz c by blast
qed

subsection \<open>Event counts\<close>

lemma aggregate_Inr:
  assumes "aggregate_with add zero tabs outf det tmid = Inr nevents"
  shows "length nevents = length tmid"
    and "i < length tmid \<Longrightarrow>
           \<exists>t. tabs (key_of outf det i) = Some t \<and> columns_present t
               \<and> nevents ! i = bin_sum_with add zero t"
proof -
  have run: "outer_loop add zero tabs outf det [0..<length tmid] (nevents_init_with zero tmid)
               = Inr nevents"
    using assms by (simp add: aggregate_with_def)
  have bound: "\<forall>i\<in>set [0..<length tmid]. i < length (nevents_init_with zero tmid)"
    by (simp add: nevents_init_with_def)
  note all = outer_loop_Inr [OF run distinct_upt bound]
  from all show "length nevents = length tmid"
    by (simp add: nevents_init_with_def)
  assume i: "i < length tmid"
  then have "i \<in> set [0..<length tmid]"
    by simp
  with all obtain t where "tabs (key_of outf det i) = Some t" "columns_present t"
    "nevents ! i = bin_add add zero t (nevents_init_with zero tmid ! i)"
    by blast
  with i show "\<exists>t. tabs (key_of outf det i) = Some t \<and> columns_present t
      \<and> nevents ! i = bin_sum_with add zero t"
    by (simp add: nevents_init_with_def bin_sum_bin_add)
qed

lemma aggregate_all_present:
  assumes "\<forall>i<length tmid. \<exists>t. tabs (key_of outf det i) = Some t \<and> columns_present t"
  shows "\<exists>nevents. aggregate_with add zero tabs outf det tmid = Inr nevents"
  unfolding aggregate_with_def
  using assms by (intro outer_loop_all_present) (simp_all add: nevents_init_with_def)

lemma aggregate_first_absent:
  assumes i: "i < length tmid" and none: "tabs (key_of outf det i) = None"
    and before: "\<forall>k<i. \<exists>t. tabs (key_of outf det k) = Some t \<and> columns_present t"
  shows "aggregate_with add zero tabs outf det tmid = Inl (KeyError (key_of outf det i))"
proof -
  have "[0..<length tmid] = [0..<i] @ [i..<length tmid]"
    using i upt_add_eq_append [of 0 i "length tmid - i"] by simp
  then have split: "[0..<length tmid] = [0..<i] @ i # [Suc i..<length tmid]"
    using i by (simp add: upt_conv_Cons)
  have "\<forall>k\<in>set [0..<i]. k < length (nevents_init_with zero tmid)"
    using i by (simp add: nevents_init_with_def)
  with before obtain mid
    where mid: "outer_loop add zero tabs outf det [0..<i] (nevents_init_with zero tmid) = Inr mid"
    using outer_loop_all_present [of "[0..<i]" tabs outf det "nevents_init_with zero tmid" add zero]
    by auto
  show ?thesis
    unfolding aggregate_with_def split outer_loop_append mid
    by (simp only: sum.case outer_loop_absent [of tabs outf det i, OF none])
qed

lemma aggregate_cong:
  assumes "\<forall>i<length tmid. tabs (key_of outf det i) = tabs' (key_of outf det i)"
  shows "aggregate_with add zero tabs outf det tmid = aggregate_with add zero tabs' outf det tmid"
  unfolding aggregate_with_def
  using assms by (intro outer_loop_cong) simp

lemma tables_of_apply:
  "tables_of p t k =
     (if k \<in> key_of (outfile p) (detector p) ` {..<window_bins p} then Some t else None)"
proof -
  have "map_of (map (\<lambda>i. (f i, t)) xs) k = (if k \<in> f ` set xs then Some t else None)"
    for f :: "nat \<Rightarrow> string" and xs
    by (induction xs) auto
  then show ?thesis
    by (simp add: tables_of_def lessThan_atLeast0)
qed

lemma tables_of_key:
  "tables_of p t (key_of (outfile p) (detector p) i) = (if i < window_bins p then Some t else None)"
  by (auto simp: tables_of_apply key_of_inj)

lemma header_example: "str_split (header example_table) = [ascii ''Energy(GeV)'', ascii ''ibd'', ascii ''nue_O16'']"
  by (simp add: example_table_def ascii_def str_split_def is_space_def)

lemma columns_present_example: "columns_present example_table"
  by (simp add: columns_present_def header_example) (simp add: example_table_def)

lemma columns_present_short: "\<not> columns_present short_table"
  by (simp add: columns_present_def short_table_def ascii_def str_split_def is_space_def)

lemma bin_sum_example: "bin_sum example_table = 18"
  by (simp add: bin_sum_exact header_example upt_rec) (simp add: example_table_def)

lemma columns_present_big: "columns_present big_table"
  by (simp add: columns_present_def big_table_def ascii_def str_split_def is_space_def)

lemma bin_sum_big: "bin_sum_with add_even 0 big_table = 9007199254740992"
  by (simp add: bin_sum_with_def py_sum_with_def big_table_def ascii_def str_split_def
        is_space_def add_even_def upt_rec)

text \<open>A header with a no-break space between its first two words has three words.\<close>

lemma bin_sum_nbsp: "bin_sum \<lparr>header = [69, 160, 97, 32, 98], data = [[1], [2], [4]]\<rparr> = 6"
  by (simp add: bin_sum_exact str_split_nbsp upt_rec)

lemma columns_present_nbsp:
  "\<not> columns_present \<lparr>header = [69, 160, 97, 32, 98], data = [[1 :: rat], [2]]\<rparr>"
  by (simp add: columns_present_def str_split_nbsp)

lemma add_even_not_assoc: "add_even (add_even 0 1) 1 \<noteq> add_even 0 (add_even 1 1)"
  by (simp add: add_even_def)

lemma outfile_nb5 [simp]:
  "outfile (p\<lparr>window_bins := n\<rparr>) = outfile p" "detector (p\<lparr>window_bins := n\<rparr>) = detector p"
  by (simp_all add: outfile_def)

text \<open>
  C1: when the loops of cell 7 complete, every bin \<open>i < window_bins\<close> has a table under
  its key, and \<open>nevents[i]\<close> is the sum over the columns \<open>j = 1, \<dots>, len(header.split()) - 1\<close>
  of that table of the sum of column \<open>j\<close>; \<open>nevents\<close> starts as \<open>window_bins\<close> zeros. The
  sums are those of the code, taken from the left starting at zero, and the statement
  holds for every addition and zero, exact or rounding.
\<close>

theorem C1_bin_counts:
  assumes "cell3 p = Inr (tstart, tend, tmid)"
    and "aggregate_with add zero tabs (outfile p) (detector p) tmid = Inr nevents"
    and "i < window_bins p"
  shows "nevents_init_with zero tmid = replicate (window_bins p) zero
     \<and> length nevents = window_bins p
     \<and> (\<exists>t. tabs (key_of (outfile p) (detector p) i) = Some t \<and> columns_present t
            \<and> nevents ! i = bin_sum_with add zero t)"
proof -
  have len: "length tmid = window_bins p"
    using assms(1) by (rule cell3_lengths)
  with assms(3) have "i < length tmid"
    by simp
  from aggregate_Inr [OF assms(2)] this len show ?thesis
    by (simp add: nevents_init_with_def)
qed

theorem C1_witness:
  "\<exists>tstart tend tmid nevents rounded.
     cell3 nb_params = Inr (tstart, tend, tmid)
     \<and> 7 < window_bins nb_params
     \<and> aggregate (tables_of nb_params example_table) (outfile nb_params) (detector nb_params) tmid
         = Inr nevents
     \<and> length nevents = 60
     \<and> nevents ! 7 = 18
     \<and> aggregate_with add_even 0 (tables_of nb_params big_table) (outfile nb_params)
          (detector nb_params) tmid = Inr rounded
     \<and> length rounded = 60
     \<and> rounded ! 7 = 9007199254740992"
proof -
  let ?outf = "outfile nb_params" and ?det = "detector nb_params"
  have nz: "window_bins nb_params \<noteq> 0" and seven: "7 < window_bins nb_params"
    and sixty: "window_bins nb_params = 60"
    by (simp_all add: nb_params_def)
  from cell3_Inr [OF nz] obtain tstart tend tmid
    where c: "cell3 nb_params = Inr (tstart, tend, tmid)"
    by blast
  have len: "length tmid = window_bins nb_params"
    using c by (rule cell3_lengths)
  have key7: "tables_of nb_params t (key_of ?outf ?det 7) = Some t" for t :: "'a table"
    using seven by (simp add: tables_of_key)
  have "\<forall>i<length tmid. \<exists>t. tables_of nb_params example_table (key_of ?outf ?det i) = Some t
          \<and> columns_present t"
    by (simp add: len tables_of_key columns_present_example)
  then obtain nevents
    where a: "aggregate (tables_of nb_params example_table) ?outf ?det tmid = Inr nevents"
    using aggregate_all_present [where add = "(+)" and zero = "0::rat"] by blast
  note r1 = C1_bin_counts [OF c a seven]
  from r1 have l1: "length nevents = 60"
    unfolding sixty by (rule conjunct2 [THEN conjunct1])
  from r1 obtain t where "tables_of nb_params example_table (key_of ?outf ?det 7) = Some t"
    and "nevents ! 7 = bin_sum t"
    by blast
  then have v1: "nevents ! 7 = 18"
    unfolding key7 by (simp add: bin_sum_example)
  have "\<forall>i<length tmid. \<exists>t. tables_of nb_params big_table (key_of ?outf ?det i) = Some t
          \<and> columns_present t"
    by (simp add: len tables_of_key columns_present_big)
  then obtain rounded
    where b: "aggregate_with add_even 0 (tables_of nb_params big_table) ?outf ?det tmid
                = Inr rounded"
    using aggregate_all_present [where add = add_even and zero = "0::nat"] by blast
  note r2 = C1_bin_counts [OF c b seven]
  from r2 have l2: "length rounded = 60"
    unfolding sixty by (rule conjunct2 [THEN conjunct1])
  from r2 obtain t where "tables_of nb_params big_table (key_of ?outf ?det 7) = Some t"
    and "rounded ! 7 = bin_sum_with add_even 0 t"
    by blast
  then have v2: "rounded ! 7 = 9007199254740992"
    unfolding key7 by (simp only: option.inject bin_sum_big)
  show ?thesis
    by (rule exI [of _ tstart], rule exI [of _ tend], rule exI [of _ tmid],
        rule exI [of _ nevents], rule exI [of _ rounded])
       (intro conjI c seven a l1 v1 b l2 v2)
qed

subsection \<open>The cells, outcome by outcome\<close>

lemma compute_factor_Inr:
  "window_tend p \<noteq> window_tstart p \<Longrightarrow>
     compute_factor p = Inr (of_nat (window_bins p) / (window_tend p - window_tstart p) / 1000)"
  by (simp add: compute_factor_def py_div_def)

lemma compute_factor_zero:
  "window_tend p = window_tstart p \<Longrightarrow> compute_factor p = Inl ZeroDivisionError"
  by (simp add: compute_factor_def py_div_def)

lemma cell5_gf_raises:
  assumes "gf_call tk p tstart tend (world s0) = (Inl e, w1)"
  shows "cell5 tk p tstart tend s0 =
     (Inl e, \<lparr>world = w1,
              trace = trace s0 @ [Print ''Preparing fluences ...'', gf_event p tstart tend]\<rparr>)"
  using assms by (simp add: cell5_def call_ext_def emit_def)

lemma cell5_sim_raises:
  assumes "gf_call tk p tstart tend (world s0) = (Inr tarredfile, w1)"
    and "sim_call tk p tarredfile w1 = (Inl e, w2)"
  shows "cell5 tk p tstart tend s0 =
     (Inl e, \<lparr>world = w2,
              trace = trace s0 @ [Print ''Preparing fluences ...'', gf_event p tstart tend,
                Print ''Running SNOwGLoBES ...'', sim_event p tarredfile]\<rparr>)"
  using assms by (simp add: cell5_def call_ext_def emit_def)

lemma cell5_col_raises:
  assumes "gf_call tk p tstart tend (world s0) = (Inr tarredfile, w1)"
    and "sim_call tk p tarredfile w1 = (Inr u, w2)"
    and "col_call tk p tarredfile w2 = (Inl e, w3)"
  shows "cell5 tk p tstart tend s0 =
     (Inl e, \<lparr>world = w3,
              trace = trace s0 @ [Print ''Preparing fluences ...'', gf_event p tstart tend,
                Print ''Running SNOwGLoBES ...'', sim_event p tarredfile,
                Print ''Collating results ...'', col_event p tarredfile]\<rparr>)"
  using assms by (simp add: cell5_def call_ext_def emit_def)

lemma cell5_returns:
  assumes "gf_call tk p tstart tend (world s0) = (Inr tarredfile, w1)"
    and "sim_call tk p tarredfile w1 = (Inr u, w2)"
    and "col_call tk p tarredfile w2 = (Inr tabs, w3)"
  shows "cell5 tk p tstart tend s0 =
     (Inr (tarredfile, tabs), \<lparr>world = w3,
              trace = trace s0 @ [Print ''Preparing fluences ...'', gf_event p tstart tend,
                Print ''Running SNOwGLoBES ...'', sim_event p tarredfile,
                Print ''Collating results ...'', col_event p tarredfile]\<rparr>)"
  using assms by (simp add: cell5_def call_ext_def emit_def)

lemma cell7_aggregate_raises:
  "aggregate tabs (outfile p) (detector p) tmid = Inl e \<Longrightarrow> cell7 p tmid tabs s0 = (Inl e, s0)"
  by (simp add: cell7_def)


lemma cell7_returns:
  "aggregate tabs (outfile p) (detector p) tmid = Inr nevents \<Longrightarrow> compute_factor p = Inr factor \<Longrightarrow>
     cell7 p tmid tabs s0 =
       (Inr nevents, \<lparr>world = world s0, trace = trace s0 @ plot_events tmid nevents factor\<rparr>)"
  by (simp add: cell7_def emit_def)

lemma notebook_cell3_raises:
  "cell3 p = Inl e \<Longrightarrow> notebook tk p w0 = (Inl e, \<lparr>world = w0, trace = []\<rparr>)"
  by (simp add: notebook_def)

lemma notebook_cells:
  "cell3 p = Inr (tstart, tend, tmid) \<Longrightarrow>
     notebook tk p w0 =
       (case cell5 tk p tstart tend \<lparr>world = w0, trace = []\<rparr> of
          (Inl e, s1) \<Rightarrow> (Inl e, s1)
        | (Inr (tarredfile, tabs), s1) \<Rightarrow> cell7 p tmid tabs s1)"
  by (simp add: notebook_def)

lemma notebook_gf_raises:
  assumes "cell3 p = Inr (tstart, tend, tmid)"
    and "gf_call tk p tstart tend w0 = (Inl e, w1)"
  shows "notebook tk p w0 =
     (Inl e, \<lparr>world = w1, trace = [Print ''Preparing fluences ...'', gf_event p tstart tend]\<rparr>)"
  using assms(2)
  by (simp add: notebook_cells [OF assms(1)]
        cell5_gf_raises [of tk p tstart tend "\<lparr>world = w0, trace = []\<rparr>" e w1])

lemma notebook_sim_raises:
  assumes "cell3 p = Inr (tstart, tend, tmid)"
    and "gf_call tk p tstart tend w0 = (Inr tarredfile, w1)"
    and "sim_call tk p tarredfile w1 = (Inl e, w2)"
  shows "notebook tk p w0 =
     (Inl e, \<lparr>world = w2, trace = [Print ''Preparing fluences ...'', gf_event p tstart tend,
                Print ''Running SNOwGLoBES ...'', sim_event p tarredfile]\<rparr>)"
  using assms(2,3)
  by (simp add: notebook_cells [OF assms(1)]
        cell5_sim_raises [of tk p tstart tend "\<lparr>world = w0, trace = []\<rparr>" tarredfile w1 e w2])

lemma notebook_col_raises:
  assumes "cell3 p = Inr (tstart, tend, tmid)"
    and "gf_call tk p tstart tend w0 = (Inr tarredfile, w1)"
    and "sim_call tk p tarredfile w1 = (Inr u, w2)"
    and "col_call tk p tarredfile w2 = (Inl e, w3)"
  shows "notebook tk p w0 =
     (Inl e, \<lparr>world = w3, trace = [Print ''Preparing fluences ...'', gf_event p tstart tend,
                Print ''Running SNOwGLoBES ...'', sim_event p tarredfile,
                Print ''Collating results ...'', col_event p tarredfile]\<rparr>)"
  using assms(2,3,4)
  by (simp add: notebook_cells [OF assms(1)]
        cell5_col_raises [of tk p tstart tend "\<lparr>world = w0, trace = []\<rparr>" tarredfile w1 u w2 e w3])

lemma notebook_collated:
  assumes "cell3 p = Inr (tstart, tend, tmid)"
    and "gf_call tk p tstart tend w0 = (Inr tarredfile, w1)"
    and "sim_call tk p tarredfile w1 = (Inr u, w2)"
    and "col_call tk p tarredfile w2 = (Inr tabs, w3)"
  shows "notebook tk p w0 =
     cell7 p tmid tabs
       \<lparr>world = w3, trace = [Print ''Preparing fluences ...'', gf_event p tstart tend,
                Print ''Running SNOwGLoBES ...'', sim_event p tarredfile,
                Print ''Collating results ...'', col_event p tarredfile]\<rparr>"
  using assms(2,3,4)
  by (simp add: notebook_cells [OF assms(1)]
        cell5_returns [of tk p tstart tend "\<lparr>world = w0, trace = []\<rparr>" tarredfile w1 u w2 tabs w3])

lemma stub_calls:
  "gf_call (stub_toolkit k tabs) p tstart tend w =
     (if k = 0 then Inl (OtherError ''generate_fluence'') else Inr (outfile p @ ''.tar.bz2''), Suc w)"
  "sim_call (stub_toolkit k tabs) p tarredfile w =
     (if k = 1 then Inl (OtherError ''simulate'') else Inr (), Suc w)"
  "col_call (stub_toolkit k tabs) p tarredfile w =
     (if k = 2 then Inl (OtherError ''collate'') else Inr tabs, Suc w)"
  by (simp_all add: stub_toolkit_def)

subsection \<open>The conversion factor\<close>

text \<open>
  C5: \<open>factor = window_bins / (window_tend - window_tstart) / 1000\<close> is the reciprocal of
  one thousand times the bin width, so \<open>n * factor\<close> is \<open>n\<close> divided by the width of a bin
  in milliseconds, over the rationals.
\<close>

theorem C5_factor_per_ms:
  assumes "window_bins p \<noteq> 0" and "window_tend p \<noteq> window_tstart p"
  shows "\<exists>factor tstart tend tmid.
       compute_factor p = Inr factor \<and> cell3 p = Inr (tstart, tend, tmid)
     \<and> factor = of_nat (window_bins p) / (window_tend p - window_tstart p) / 1000
     \<and> factor = 1 / (1000 * bin_width p)
     \<and> (\<forall>i<window_bins p. \<forall>n. n * factor = n / ((tend ! i - tstart ! i) * 1000))"
proof -
  let ?f = "of_nat (window_bins p) / (window_tend p - window_tstart p) / 1000"
  from cell3_Inr [OF assms(1)] obtain tstart tend tmid
    where c: "cell3 p = Inr (tstart, tend, tmid)"
    by blast
  have f: "compute_factor p = Inr ?f"
    using assms(2) by (rule compute_factor_Inr)
  have recip: "?f = 1 / (1000 * bin_width p)"
    by (simp add: bin_width_def)
  have "n * ?f = n / ((tend ! i - tstart ! i) * 1000)" if "i < window_bins p" for i n
  proof -
    have w: "tend ! i - tstart ! i = bin_width p"
      unfolding cell3_nth(2) [OF c that] by simp
    show ?thesis
      unfolding recip w by (simp add: mult.commute)
  qed
  with c f recip show ?thesis
    by blast
qed

theorem C5_witness:
  "window_bins nb_params \<noteq> 0 \<and> window_tend nb_params \<noteq> window_tstart nb_params
   \<and> compute_factor nb_params = Inr 3
   \<and> 1000 * bin_width nb_params = 1 / 3"
proof -
  have nz: "window_bins nb_params \<noteq> 0" and ne: "window_tend nb_params \<noteq> window_tstart nb_params"
    by (simp_all add: nb_params_def)
  from C5_factor_per_ms [OF nz ne] obtain factor
    where f: "compute_factor nb_params = Inr factor"
      and v: "factor = of_nat (window_bins nb_params)
                / (window_tend nb_params - window_tstart nb_params) / 1000"
      and r: "factor = 1 / (1000 * bin_width nb_params)"
    by blast
  from v have three: "factor = 3"
    by (simp add: nb_params_def)
  have "1000 * bin_width nb_params = 1 / 3"
    by (simp add: bin_width_def nb_params_def)
  with nz ne f three show ?thesis
    by simp
qed

subsection \<open>Missing keys and missing columns\<close>

text \<open>
  C7, as the code has it: the loops check nothing before indexing. If the key of bin \<open>i\<close>
  is absent and the tables of all earlier bins have their columns, the loops end with the
  \<^verbatim>\<open>KeyError\<close> of that key; whenever some bin's key is absent they end with an error;
  and when every bin's key is present and every such table has a column of data for each
  header word after the first, they complete.
\<close>

theorem C7_lookup_unvalidated:
  "(i < length tmid \<and> tabs (key_of outf det i) = None
      \<and> (\<forall>k<i. \<exists>t. tabs (key_of outf det k) = Some t \<and> columns_present t)
      \<longrightarrow> aggregate tabs outf det tmid = Inl (KeyError (key_of outf det i)))
   \<and> ((\<exists>k<length tmid. tabs (key_of outf det k) = None)
      \<longrightarrow> (\<exists>e. aggregate tabs outf det tmid = Inl e))
   \<and> ((\<forall>k<length tmid. \<exists>t. tabs (key_of outf det k) = Some t \<and> columns_present t)
      \<longrightarrow> (\<exists>nevents. aggregate tabs outf det tmid = Inr nevents
             \<and> length nevents = length tmid))"
proof (intro conjI impI)
  assume "i < length tmid \<and> tabs (key_of outf det i) = None
      \<and> (\<forall>k<i. \<exists>t. tabs (key_of outf det k) = Some t \<and> columns_present t)"
  then show "aggregate tabs outf det tmid = Inl (KeyError (key_of outf det i))"
    using aggregate_first_absent [of i tmid tabs outf det "(+)" 0] by blast
next
  assume "\<exists>k<length tmid. tabs (key_of outf det k) = None"
  then obtain k where k: "k < length tmid" "tabs (key_of outf det k) = None"
    by blast
  show "\<exists>e. aggregate tabs outf det tmid = Inl e"
  proof (cases "aggregate tabs outf det tmid")
    case (Inl e)
    then show ?thesis by blast
  next
    case (Inr nevents)
    from aggregate_Inr(2) [OF Inr k(1)] k(2) show ?thesis
      by simp
  qed
next
  assume all: "\<forall>k<length tmid. \<exists>t. tabs (key_of outf det k) = Some t \<and> columns_present t"
  then obtain nevents where a: "aggregate tabs outf det tmid = Inr nevents"
    using aggregate_all_present [where add = "(+)" and zero = "0::rat"] by blast
  with aggregate_Inr(1) [OF a]
  show "\<exists>nevents. aggregate tabs outf det tmid = Inr nevents \<and> length nevents = length tmid"
    by blast
qed

lemma window_bins_nb: "window_bins nb_params = 60"
  by (simp add: nb_params_def)

lemma nb_windows:
  obtains tstart tend tmid where "cell3 nb_params = Inr (tstart, tend, tmid)"
    and "length tstart = 60" and "length tend = 60" and "length tmid = 60"
proof -
  have nz: "window_bins nb_params \<noteq> 0"
    by (simp add: nb_params_def)
  from cell3_Inr [OF nz] obtain tstart tend tmid
    where c: "cell3 nb_params = Inr (tstart, tend, tmid)"
    by blast
  have "window_bins nb_params = 60"
    by (simp add: nb_params_def)
  with cell3_lengths [OF c] that [OF c] show ?thesis
    by simp
qed

theorem C7_witness:
  "\<exists>tstart tend tmid.
     cell3 nb_params = Inr (tstart, tend, tmid)
   \<and> aggregate (tables_of (nb_params\<lparr>window_bins := 5\<rparr>) example_table)
        (outfile nb_params) (detector nb_params) tmid
       = Inl (KeyError ''Collated_Zha_2021_s17_AdiabaticMSW_NMO_5_icecube_events_smeared_weighted.dat'')
   \<and> (\<exists>nevents. aggregate (tables_of nb_params example_table)
        (outfile nb_params) (detector nb_params) tmid = Inr nevents \<and> length nevents = 60)"
proof -
  obtain tstart tend tmid where c: "cell3 nb_params = Inr (tstart, tend, tmid)"
    and len: "length tmid = 60"
    by (rule nb_windows)
  let ?outf = "outfile nb_params" and ?det = "detector nb_params"
  let ?five = "tables_of (nb_params\<lparr>window_bins := 5\<rparr>) example_table"
  let ?all = "tables_of nb_params example_table"
  have five: "?five (key_of ?outf ?det k) = (if k < 5 then Some example_table else None)" for k
    using tables_of_key [of "nb_params\<lparr>window_bins := 5\<rparr>" example_table k] by simp
  have k5: "key_of ?outf ?det 5
      = ''Collated_Zha_2021_s17_AdiabaticMSW_NMO_5_icecube_events_smeared_weighted.dat''"
    by code_simp
  have "5 < length tmid \<and> ?five (key_of ?outf ?det 5) = None
      \<and> (\<forall>k<5. \<exists>t. ?five (key_of ?outf ?det k) = Some t \<and> columns_present t)"
    by (simp add: len five columns_present_example)
  with C7_lookup_unvalidated [of 5 tmid ?five ?outf ?det]
  have first: "aggregate ?five ?outf ?det tmid = Inl (KeyError (key_of ?outf ?det 5))"
    by blast
  have "\<forall>k<length tmid. \<exists>t. ?all (key_of ?outf ?det k) = Some t \<and> columns_present t"
    by (simp add: len tables_of_key columns_present_example window_bins_nb)
  with C7_lookup_unvalidated [of 5 tmid ?all ?outf ?det]
  have "\<exists>nevents. aggregate ?all ?outf ?det tmid = Inr nevents \<and> length nevents = length tmid"
    by blast
  with c first show ?thesis
    unfolding k5 len by blast
qed

lemma aggregate_short:
  assumes "length tmid \<noteq> 0" and "tabs (key_of outf det 0) = Some t" and "\<not> columns_present t"
  shows "aggregate tabs outf det tmid = Inl IndexError"
proof -
  have "[0..<length tmid] = 0 # [1..<length tmid]"
    using assms(1) by (simp add: upt_conv_Cons)
  moreover have "0 < length (nevents_init tmid)"
    using assms(1) by (simp add: nevents_init_with_def)
  ultimately show ?thesis
    unfolding aggregate_with_def
    using outer_loop_present [of tabs outf det 0 t "nevents_init tmid" "(+)" 0
            "[1..<length tmid]"] assms(2,3)
    by simp
qed

text \<open>
  A dictionary with all sixty keys whose tables name a column the data lacks: the notebook
  ends with an \<^verbatim>\<open>IndexError\<close>.
\<close>

theorem C7_counterexample:
  "key_of (outfile nb_params) (detector nb_params) ` {..<window_bins nb_params}
     \<subseteq> dom (tables_of nb_params short_table)
   \<and> fst (notebook (stub_toolkit 3 (tables_of nb_params short_table)) nb_params 0)
       = Inl IndexError"
proof -
  obtain tstart tend tmid where c: "cell3 nb_params = Inr (tstart, tend, tmid)"
    and len: "length tmid = 60"
    by (rule nb_windows)
  let ?tabs = "tables_of nb_params short_table"
  have keys: "key_of (outfile nb_params) (detector nb_params) ` {..<window_bins nb_params}
     \<subseteq> dom ?tabs"
    by (auto simp: tables_of_key)
  have "?tabs (key_of (outfile nb_params) (detector nb_params) 0) = Some short_table"
    by (simp add: tables_of_key window_bins_nb)
  then have a: "aggregate ?tabs (outfile nb_params) (detector nb_params) tmid = Inl IndexError"
    using len columns_present_short by (intro aggregate_short) simp_all
  have "notebook (stub_toolkit 3 ?tabs) nb_params 0 =
     cell7 nb_params tmid ?tabs
       \<lparr>world = 3, trace = [Print ''Preparing fluences ...'', gf_event nb_params tstart tend,
                Print ''Running SNOwGLoBES ...'', sim_event nb_params (outfile nb_params @ ''.tar.bz2''),
                Print ''Collating results ...'', col_event nb_params (outfile nb_params @ ''.tar.bz2'')]\<rparr>"
    by (rule notebook_collated [OF c, where ?w1.0 = 1 and ?w2.0 = 2 and u = "()"])
       (simp_all add: stub_calls)
  then have "fst (notebook (stub_toolkit 3 ?tabs) nb_params 0) = Inl IndexError"
    by (simp add: cell7_aggregate_raises [OF a])
  with keys show ?thesis
    by blast
qed

subsection \<open>Lengths and the keys read\<close>

text \<open>
  C10: \<open>tstart\<close>, \<open>tend\<close> and \<open>tmid\<close> have \<open>window_bins = 60\<close> entries and so has
  \<open>nevents\<close>, when created and when the loops are done. The loops read one key for each
  bin index below 60, all different: a run that completes found every one of them in the
  dictionary, and two dictionaries that agree on these keys give the same outcome.
\<close>

theorem C10_lengths_and_keys:
  "\<exists>tstart tend tmid. cell3 nb_params = Inr (tstart, tend, tmid)
     \<and> length tstart = 60 \<and> length tend = 60 \<and> length tmid = 60
     \<and> window_bins nb_params = 60
     \<and> length (nevents_init tmid) = 60
     \<and> distinct (map (key_of (outfile nb_params) (detector nb_params)) [0..<60])
     \<and> (\<forall>tabs nevents.
           aggregate tabs (outfile nb_params) (detector nb_params) tmid = Inr nevents \<longrightarrow>
             length nevents = 60
             \<and> (\<forall>i<60. key_of (outfile nb_params) (detector nb_params) i \<in> dom tabs))
     \<and> (\<forall>tabs tabs'.
           (\<forall>i<60. tabs (key_of (outfile nb_params) (detector nb_params) i)
                     = tabs' (key_of (outfile nb_params) (detector nb_params) i)) \<longrightarrow>
             aggregate tabs (outfile nb_params) (detector nb_params) tmid
               = aggregate tabs' (outfile nb_params) (detector nb_params) tmid)"
proof -
  obtain tstart tend tmid where c: "cell3 nb_params = Inr (tstart, tend, tmid)"
    and len: "length tstart = 60" "length tend = 60" "length tmid = 60"
    by (rule nb_windows)
  let ?outf = "outfile nb_params" and ?det = "detector nb_params"
  have init: "length (nevents_init tmid) = 60"
    by (simp add: nevents_init_with_def len)
  have dist: "distinct (map (key_of ?outf ?det) [0..<60])"
    by (simp add: distinct_map inj_on_def key_of_inj)
  have fin: "length nevents = 60 \<and> (\<forall>i<60. key_of ?outf ?det i \<in> dom tabs)"
    if a: "aggregate tabs ?outf ?det tmid = Inr nevents" for tabs nevents
    using aggregate_Inr [OF a] len(3) by fastforce
  have ext: "aggregate tabs ?outf ?det tmid = aggregate tabs' ?outf ?det tmid"
    if "\<forall>i<60. tabs (key_of ?outf ?det i) = tabs' (key_of ?outf ?det i)" for tabs tabs'
    using that len(3) by (intro aggregate_cong) simp
  from c len window_bins_nb init dist fin ext show ?thesis
    by blast
qed

lemma key_of_Collated: "key_of outf det i = ''Collated_'' @ outf @ ''_'' @ str_nat i @ ''_'' @ det
     @ ''_events_smeared_weighted.dat''"
  by (simp add: key_of_def)

theorem C10_witness:
  "\<exists>tstart tend tmid. cell3 nb_params = Inr (tstart, tend, tmid) \<and> length tmid = 60
     \<and> aggregate (tables_of nb_params example_table) (outfile nb_params) (detector nb_params) tmid
       = aggregate ((tables_of nb_params example_table)(''README'' \<mapsto> short_table))
           (outfile nb_params) (detector nb_params) tmid
     \<and> (\<exists>nevents. aggregate (tables_of nb_params example_table) (outfile nb_params)
            (detector nb_params) tmid = Inr nevents \<and> length nevents = 60)"
proof -
  let ?outf = "outfile nb_params" and ?det = "detector nb_params"
  let ?tabs = "tables_of nb_params example_table"
  from C10_lengths_and_keys obtain tstart tend tmid
    where c: "cell3 nb_params = Inr (tstart, tend, tmid)" and len: "length tmid = 60"
      and fin: "\<forall>tabs nevents. aggregate tabs ?outf ?det tmid = Inr nevents \<longrightarrow>
             length nevents = 60 \<and> (\<forall>i<60. key_of ?outf ?det i \<in> dom tabs)"
      and ext: "\<forall>tabs tabs'.
           (\<forall>i<60. tabs (key_of ?outf ?det i) = tabs' (key_of ?outf ?det i)) \<longrightarrow>
             aggregate tabs ?outf ?det tmid = aggregate tabs' ?outf ?det tmid"
    by blast
  have "\<forall>i<60. ?tabs (key_of ?outf ?det i) = (?tabs(''README'' \<mapsto> short_table)) (key_of ?outf ?det i)"
    by (simp add: key_of_Collated)
  with ext have same: "aggregate ?tabs ?outf ?det tmid
      = aggregate (?tabs(''README'' \<mapsto> short_table)) ?outf ?det tmid"
    by blast
  have "\<forall>i<length tmid. \<exists>t. ?tabs (key_of ?outf ?det i) = Some t \<and> columns_present t"
    by (simp add: len tables_of_key columns_present_example window_bins_nb)
  then obtain nevents where a: "aggregate ?tabs ?outf ?det tmid = Inr nevents"
    using aggregate_all_present [where add = "(+)" and zero = "0::rat"] by blast
  with fin have "length nevents = 60"
    by blast
  with c len same a show ?thesis
    by blast
qed

subsection \<open>The order of the stages\<close>

text \<open>
  C4, as the code has it: when every stage completes, a run is the windows of cell 3, then
  \<^verbatim>\<open>generate_fluence\<close>, then \<^verbatim>\<open>simulate\<close>, then \<^verbatim>\<open>collate\<close>, then the loops of cell 7,
  then the plot, each after the one before; the path \<^verbatim>\<open>generate_fluence\<close> returned is
  passed to \<^verbatim>\<open>simulate\<close> and to \<^verbatim>\<open>collate\<close>; and the counts are computed from the
  dictionary \<^verbatim>\<open>collate\<close> returned together with \<open>outfile\<close>, \<open>detector\<close> and the number of
  bins \<open>len(tmid)\<close>, and from nothing else.
\<close>

theorem C4_pipeline_order:
  assumes "cell3 p = Inr (tstart, tend, tmid)"
    and "generate_fluence tk (modelfile p) (modeltype p) (transformation p) (distance p)
           (outfile p) tstart tend w0 = (Inr tarredfile, w1)"
    and "simulate tk (SNOwGLoBES_path p) tarredfile (detector p) w1 = (Inr u, w2)"
    and "collate tk (SNOwGLoBES_path p) tarredfile True w2 = (Inr tabs, w3)"
    and "aggregate tabs (outfile p) (detector p) tmid = Inr nevents"
    and "compute_factor p = Inr factor"
  shows "notebook tk p w0 =
      (Inr nevents,
       \<lparr>world = w3,
        trace = [Print ''Preparing fluences ...'',
                 CallGenerateFluence (modelfile p) (modeltype p) (transformation p) (distance p)
                   (outfile p) tstart tend,
                 Print ''Running SNOwGLoBES ...'',
                 CallSimulate (SNOwGLoBES_path p) tarredfile (detector p),
                 Print ''Collating results ...'',
                 CallCollate (SNOwGLoBES_path p) tarredfile True]
                @ plot_events tmid nevents factor\<rparr>)
     \<and> (\<forall>tmid'. length tmid' = length tmid \<longrightarrow>
           aggregate tabs (outfile p) (detector p) tmid' = Inr nevents)"
proof -
  have same: "aggregate tabs (outfile p) (detector p) tmid'
          = aggregate tabs (outfile p) (detector p) tmid"
    if "length tmid' = length tmid" for tmid'
    unfolding aggregate_with_def nevents_init_with_def that ..
  have only: "\<forall>tmid'. length tmid' = length tmid \<longrightarrow>
           aggregate tabs (outfile p) (detector p) tmid' = Inr nevents"
    using same assms(5) by simp
  note nb = notebook_collated [OF assms(1-4)]
  note c7 = cell7_returns [OF assms(5,6)]
  have run: "notebook tk p w0 =
      (Inr nevents,
       \<lparr>world = w3,
        trace = [Print ''Preparing fluences ...'', gf_event p tstart tend,
                 Print ''Running SNOwGLoBES ...'', sim_event p tarredfile,
                 Print ''Collating results ...'', col_event p tarredfile]
                @ plot_events tmid nevents factor\<rparr>)"
    apply (subst nb)
    apply (subst c7)
    apply (simp only: nb_state.simps append_Nil)
    done
  from run only show ?thesis
    by (rule conjI)
qed

theorem C4_witness:
  "\<exists>tstart tend tmid nevents.
     cell3 nb_params = Inr (tstart, tend, tmid)
   \<and> aggregate (tables_of nb_params example_table) (outfile nb_params) (detector nb_params) tmid
       = Inr nevents
   \<and> notebook (stub_toolkit 3 (tables_of nb_params example_table)) nb_params 0 =
      (Inr nevents,
       \<lparr>world = 3,
        trace = [Print ''Preparing fluences ...'', gf_event nb_params tstart tend,
                 Print ''Running SNOwGLoBES ...'',
                 sim_event nb_params (outfile nb_params @ ''.tar.bz2''),
                 Print ''Collating results ...'',
                 col_event nb_params (outfile nb_params @ ''.tar.bz2'')]
                @ plot_events tmid nevents 3\<rparr>)"
proof -
  let ?tabs = "tables_of nb_params example_table"
  obtain tstart tend tmid where c: "cell3 nb_params = Inr (tstart, tend, tmid)"
    and len: "length tmid = 60"
    by (rule nb_windows)
  have "\<forall>i<length tmid. \<exists>t. ?tabs (key_of (outfile nb_params) (detector nb_params) i) = Some t
          \<and> columns_present t"
    by (simp add: len tables_of_key columns_present_example window_bins_nb)
  then obtain nevents
    where a: "aggregate ?tabs (outfile nb_params) (detector nb_params) tmid = Inr nevents"
    using aggregate_all_present [where add = "(+)" and zero = "0::rat"] by blast
  have f: "compute_factor nb_params = Inr 3"
    by (simp add: compute_factor_def py_div_def nb_params_def)
  have g: "gf_call (stub_toolkit 3 ?tabs) nb_params tstart tend 0
             = (Inr (outfile nb_params @ ''.tar.bz2''), 1)"
    and s: "sim_call (stub_toolkit 3 ?tabs) nb_params (outfile nb_params @ ''.tar.bz2'') 1
             = (Inr (), 2)"
    and k: "col_call (stub_toolkit 3 ?tabs) nb_params (outfile nb_params @ ''.tar.bz2'') 2
             = (Inr ?tabs, 3)"
    by (simp_all add: stub_calls)
  note run = C4_pipeline_order [OF c g s k a f, THEN conjunct1]
  show ?thesis
    by (rule exI [of _ tstart], rule exI [of _ tend], rule exI [of _ tmid],
        rule exI [of _ nevents]) (intro conjI c a run)
qed

text \<open>
  The same dictionary with one bin and with two bins gives different counts: the
  dictionary is not the only input of the loops.
\<close>

theorem C4_counterexample:
  "aggregate (tables_of nb_params example_table) (outfile nb_params) (detector nb_params)
       [2227 / 3000] = Inr [18]
   \<and> aggregate (tables_of nb_params example_table) (outfile nb_params) (detector nb_params)
       [2227 / 3000, 2229 / 3000] = Inr [18, 18]"
proof -
  let ?tabs = "tables_of nb_params example_table"
  let ?outf = "outfile nb_params" and ?det = "detector nb_params"
  have tab: "?tabs (key_of ?outf ?det i) = Some example_table" if "i < 2" for i
    using that by (simp add: tables_of_key window_bins_nb)
  have one: "outer_loop (+) 0 ?tabs ?outf ?det [0] [0] = Inr [18]"
    using outer_loop_present [of ?tabs ?outf ?det 0 example_table "[0]" "(+)" 0 "[]"] tab [of 0]
    by (simp add: columns_present_example bin_add_exact bin_sum_example)
  have two: "outer_loop (+) 0 ?tabs ?outf ?det [0, 1] [0, 0] = Inr [18, 18]"
    using outer_loop_present [of ?tabs ?outf ?det 0 example_table "[0, 0]" "(+)" 0 "[1]"]
      tab [of 0]
      outer_loop_present [of ?tabs ?outf ?det 1 example_table "[18, 0]" "(+)" 0 "[]"] tab [of 1]
    by (simp add: columns_present_example bin_add_exact bin_sum_example)
  have "[0..<2] = [0, 1]"
    by (simp add: upt_rec)
  with one two show ?thesis
    by (simp add: aggregate_with_def nevents_init_with_def)
qed

subsection \<open>Errors of the toolkit\<close>

text \<open>
  C6: no handler surrounds the calls of cell 5. When \<^verbatim>\<open>generate_fluence\<close>, \<^verbatim>\<open>simulate\<close>
  or \<^verbatim>\<open>collate\<close> raises, the run ends with that same error and the failing call is the
  last thing the run did: no later stage is reached.
\<close>

theorem C6_errors_propagate:
  assumes "cell3 p = Inr (tstart, tend, tmid)"
  shows "(gf_call tk p tstart tend w0 = (Inl e, w1) \<longrightarrow>
            notebook tk p w0 =
              (Inl e, \<lparr>world = w1,
                       trace = [Print ''Preparing fluences ...'', gf_event p tstart tend]\<rparr>))
     \<and> (gf_call tk p tstart tend w0 = (Inr tarredfile, w1)
          \<and> sim_call tk p tarredfile w1 = (Inl e, w2) \<longrightarrow>
            notebook tk p w0 =
              (Inl e, \<lparr>world = w2,
                       trace = [Print ''Preparing fluences ...'', gf_event p tstart tend,
                                Print ''Running SNOwGLoBES ...'', sim_event p tarredfile]\<rparr>))
     \<and> (gf_call tk p tstart tend w0 = (Inr tarredfile, w1)
          \<and> sim_call tk p tarredfile w1 = (Inr u, w2)
          \<and> col_call tk p tarredfile w2 = (Inl e, w3) \<longrightarrow>
            notebook tk p w0 =
              (Inl e, \<lparr>world = w3,
                       trace = [Print ''Preparing fluences ...'', gf_event p tstart tend,
                                Print ''Running SNOwGLoBES ...'', sim_event p tarredfile,
                                Print ''Collating results ...'', col_event p tarredfile]\<rparr>))"
proof (intro conjI impI)
  assume "gf_call tk p tstart tend w0 = (Inl e, w1)"
  then show "notebook tk p w0 =
      (Inl e, \<lparr>world = w1, trace = [Print ''Preparing fluences ...'', gf_event p tstart tend]\<rparr>)"
    by (rule notebook_gf_raises [OF assms])
next
  assume "gf_call tk p tstart tend w0 = (Inr tarredfile, w1)
          \<and> sim_call tk p tarredfile w1 = (Inl e, w2)"
  then have g: "gf_call tk p tstart tend w0 = (Inr tarredfile, w1)"
    and s: "sim_call tk p tarredfile w1 = (Inl e, w2)"
    by (rule conjunct1, rule conjunct2)
  show "notebook tk p w0 =
      (Inl e, \<lparr>world = w2,
               trace = [Print ''Preparing fluences ...'', gf_event p tstart tend,
                        Print ''Running SNOwGLoBES ...'', sim_event p tarredfile]\<rparr>)"
    by (rule notebook_sim_raises [OF assms g s])
next
  assume a: "gf_call tk p tstart tend w0 = (Inr tarredfile, w1)
          \<and> sim_call tk p tarredfile w1 = (Inr u, w2)
          \<and> col_call tk p tarredfile w2 = (Inl e, w3)"
  from a have g: "gf_call tk p tstart tend w0 = (Inr tarredfile, w1)"
    by (rule conjunct1)
  from a have s: "sim_call tk p tarredfile w1 = (Inr u, w2)"
    by (rule conjunct2 [THEN conjunct1])
  from a have k: "col_call tk p tarredfile w2 = (Inl e, w3)"
    by (rule conjunct2 [THEN conjunct2])
  show "notebook tk p w0 =
      (Inl e, \<lparr>world = w3,
               trace = [Print ''Preparing fluences ...'', gf_event p tstart tend,
                        Print ''Running SNOwGLoBES ...'', sim_event p tarredfile,
                        Print ''Collating results ...'', col_event p tarredfile]\<rparr>)"
    by (rule notebook_col_raises [OF assms g s k])
qed

theorem C6_witness:
  "\<exists>tstart tend tmid.
     cell3 nb_params = Inr (tstart, tend, tmid)
   \<and> notebook (stub_toolkit 0 Map.empty) nb_params 0 =
       (Inl (OtherError ''generate_fluence''),
        \<lparr>world = 1, trace = [Print ''Preparing fluences ...'', gf_event nb_params tstart tend]\<rparr>)
   \<and> notebook (stub_toolkit 1 Map.empty) nb_params 0 =
       (Inl (OtherError ''simulate''),
        \<lparr>world = 2,
         trace = [Print ''Preparing fluences ...'', gf_event nb_params tstart tend,
                  Print ''Running SNOwGLoBES ...'',
                  sim_event nb_params (outfile nb_params @ ''.tar.bz2'')]\<rparr>)
   \<and> notebook (stub_toolkit 2 Map.empty) nb_params 0 =
       (Inl (OtherError ''collate''),
        \<lparr>world = 3,
         trace = [Print ''Preparing fluences ...'', gf_event nb_params tstart tend,
                  Print ''Running SNOwGLoBES ...'',
                  sim_event nb_params (outfile nb_params @ ''.tar.bz2''),
                  Print ''Collating results ...'',
                  col_event nb_params (outfile nb_params @ ''.tar.bz2'')]\<rparr>)"
proof -
  obtain tstart tend tmid where c: "cell3 nb_params = Inr (tstart, tend, tmid)"
    by (rule nb_windows)
  let ?tar = "outfile nb_params @ ''.tar.bz2''"
  have g0: "gf_call (stub_toolkit 0 Map.empty) nb_params tstart tend 0
              = (Inl (OtherError ''generate_fluence''), 1)"
    by (simp add: stub_calls)
  have g1: "gf_call (stub_toolkit 1 Map.empty) nb_params tstart tend 0 = (Inr ?tar, 1)
          \<and> sim_call (stub_toolkit 1 Map.empty) nb_params ?tar 1 = (Inl (OtherError ''simulate''), 2)"
    by (simp add: stub_calls)
  have g2: "gf_call (stub_toolkit 2 Map.empty) nb_params tstart tend 0 = (Inr ?tar, 1)
          \<and> sim_call (stub_toolkit 2 Map.empty) nb_params ?tar 1 = (Inr (), 2)
          \<and> col_call (stub_toolkit 2 Map.empty) nb_params ?tar 2 = (Inl (OtherError ''collate''), 3)"
    by (simp add: stub_calls)
  note r0 = C6_errors_propagate [OF c, THEN conjunct1, THEN mp, OF g0]
  note r1 = C6_errors_propagate [OF c, THEN conjunct2, THEN conjunct1, THEN mp, OF g1]
  note r2 = C6_errors_propagate [OF c, THEN conjunct2, THEN conjunct2, THEN mp, OF g2]
  show ?thesis
    by (rule exI [of _ tstart], rule exI [of _ tend], rule exI [of _ tmid])
       (intro conjI c r0 r1 r2)
qed

subsection \<open>The call of the fluence generator\<close>




end
